theory Spec2Isabelle
  imports Main
begin

section \<open>Python string and path primitives used by \<open>utils/file_utils.py\<close>\<close>

text \<open>
  Strings are \<open>char list\<close>. The functions below follow the Python built-ins and
  \<open>posixpath\<close> that the two utilities call: \<open>str.startswith\<close>, \<open>str.endswith\<close>,
  the substring test \<open>sub in s\<close>, \<open>str.rstrip("/")\<close>, \<open>os.path.basename\<close>,
  \<open>os.path.dirname\<close> and \<open>os.path.join\<close> (two arguments).
\<close>

definition sep :: char where
  "sep = CHR ''/''"

definition startswith :: "string \<Rightarrow> string \<Rightarrow> bool" where
  "startswith s p = (take (length p) s = p)"

definition endswith :: "string \<Rightarrow> string \<Rightarrow> bool" where
  "endswith s suf = (length suf \<le> length s \<and> drop (length s - length suf) s = suf)"

text \<open>\<open>str_in sub s\<close> is Python's \<open>sub in s\<close>: \<open>sub\<close> occurs in \<open>s\<close> as a contiguous run.\<close>

fun str_in :: "string \<Rightarrow> string \<Rightarrow> bool" where
  "str_in sub [] = (sub = [])"
| "str_in sub (c # cs) = (startswith (c # cs) sub \<or> str_in sub cs)"

definition rstrip_sep :: "string \<Rightarrow> string" where
  "rstrip_sep s = rev (dropWhile (\<lambda>c. c = sep) (rev s))"

definition lstrip_sep :: "string \<Rightarrow> string" where
  "lstrip_sep s = dropWhile (\<lambda>c. c = sep) s"

text \<open>\<open>posixpath.basename\<close>: everything after the last \<open>/\<close>.\<close>

definition basename :: "string \<Rightarrow> string" where
  "basename p = rev (takeWhile (\<lambda>c. c \<noteq> sep) (rev p))"

text \<open>
  \<open>posixpath.dirname\<close>: everything up to and including the last \<open>/\<close>, with the trailing
  separators stripped unless the head consists of separators only.
\<close>

definition dirname :: "string \<Rightarrow> string" where
  "dirname p =
     (let head = rev (dropWhile (\<lambda>c. c \<noteq> sep) (rev p))
      in if head \<noteq> [] \<and> (\<exists>c \<in> set head. c \<noteq> sep) then rstrip_sep head else head)"

text \<open>\<open>posixpath.join a b\<close>: an absolute \<open>b\<close> discards \<open>a\<close>.\<close>

definition join :: "string \<Rightarrow> string \<Rightarrow> string" where
  "join a b =
     (if startswith b [sep] then b
      else if a = [] \<or> endswith a [sep] then a @ b
      else a @ [sep] @ b)"

text \<open>Python's \<open>s.split(d)\<close> for a one-character separator \<open>d\<close>.\<close>

fun split_on :: "char \<Rightarrow> string \<Rightarrow> string list" where
  "split_on d [] = [[]]"
| "split_on d (c # cs) =
     (if c = d then [] # split_on d cs
      else (case split_on d cs of [] \<Rightarrow> [[c]] | w # ws \<Rightarrow> (c # w) # ws))"

section \<open>Archive members, the file system and the calling process\<close>

text \<open>
  A \<open>TarInfo\<close> carries a name, a type flag, the permission bits and (here) the bytes of
  the member. \<open>TarInfo.isfile\<close> is \<open>self.type in REGULAR_TYPES\<close>.
\<close>

datatype tartype =
  REGTYPE | AREGTYPE | LNKTYPE | SYMTYPE | CHRTYPE | BLKTYPE | DIRTYPE | FIFOTYPE
  | CONTTYPE | GNUTYPE_SPARSE

record member =
  name :: string
  mtype :: tartype
  mode :: nat
  data :: string

definition isfile :: "member \<Rightarrow> bool" where
  "isfile m = (mtype m \<in> {REGTYPE, AREGTYPE, CONTTYPE, GNUTYPE_SPARSE})"

text \<open>
  The disk is a map from path strings to nodes. A regular file has permission bits and
  bytes. A tar container is a regular file whose bytes decode to a member list. Paths are
  compared as strings: two spellings of one location are two keys, and symbolic links are
  not modelled. The regular files of the disk belong to the calling process, and
  permissions of directories are not modelled.
\<close>

datatype node = Dir | Reg nat string | Archive "member list"

type_synonym fs = "string \<Rightarrow> node option"

datatype error =
  FileNotFoundError | FileExistsError | IsADirectoryError | NotADirectoryError
  | PermissionError | ReadError | OutsideDestinationError | SpecialFileError
  | EmptyDataError | ParserError | ValueError

text \<open>
  What the calls read from the process that runs them: its effective user id
  (\<open>os.geteuid()\<close>, 0 for the superuser) and its working directory, an absolute path.
\<close>

record env =
  euid :: nat
  cwd :: string

text \<open>
  A statement that may raise returns the disk it leaves behind and the exception, if any:
  nothing is rolled back when an exception propagates.
\<close>

type_synonym outcome = "fs \<times> error option"

section \<open>The library calls of the extractor\<close>

text \<open>
  \<open>tarfile.open(file_path)\<close> followed by \<open>tar.getmembers()\<close>: the member list of the
  container, or the exception raised when the path is missing, a directory or not a tar file.
\<close>

definition tarfile_open :: "fs \<Rightarrow> string \<Rightarrow> error + member list" where
  "tarfile_open disk file_path =
     (case disk file_path of
        None \<Rightarrow> Inl FileNotFoundError
      | Some Dir \<Rightarrow> Inl IsADirectoryError
      | Some (Reg _ _) \<Rightarrow> Inl ReadError
      | Some (Archive ms) \<Rightarrow> Inr ms)"

text \<open>
  \<open>os.path.realpath\<close> without symbolic links, as a list of components: a relative path
  starts at the working directory, empty and \<open>.\<close> components are dropped, and \<open>..\<close>
  removes the component before it (at the root it removes nothing). \<open>resolve_onto\<close>
  keeps the components seen so far as a stack, the last one first.
\<close>

fun resolve_onto :: "string list \<Rightarrow> string list \<Rightarrow> string list" where
  "resolve_onto stack [] = rev stack"
| "resolve_onto stack (c # cs) =
     (if c = [] \<or> c = ''.'' then resolve_onto stack cs
      else if c = ''..'' then resolve_onto (tl stack) cs
      else resolve_onto (c # stack) cs)"

definition realpath :: "env \<Rightarrow> string \<Rightarrow> string list" where
  "realpath e p =
     (if startswith p [sep] then resolve_onto [] (split_on sep p)
      else resolve_onto (rev (resolve_onto [] (split_on sep (cwd e)))) (split_on sep p))"

text \<open>
  The three named extraction filters of \<open>tarfile\<close>. \<open>fully_trusted_filter\<close> returns the
  member unchanged. \<open>tar_filter\<close> and \<open>data_filter\<close> go through \<open>_get_filtered_attrs\<close>:
  leading separators are stripped from the name, and \<open>OutsideDestinationError\<close> is raised
  unless the real path of the name joined to the real destination has the real
  destination as its leading components (\<open>os.path.commonpath\<close>). \<open>data_filter\<close> also
  rejects special files; its checks of link targets and its changes to ownership have no
  counterpart here, members carrying neither, and the changes that both filters make to
  the permission bits are left out.
\<close>

datatype extraction_filter = fully_trusted | tar | data_only

definition get_filtered_attrs :: "env \<Rightarrow> member \<Rightarrow> string \<Rightarrow> bool \<Rightarrow> error + member" where
  "get_filtered_attrs e m dest_path for_data =
     (let dest = realpath e dest_path;
          nm = (if startswith (name m) [sep] then lstrip_sep (name m) else name m);
          target_path = resolve_onto (rev dest) (split_on sep nm)
      in if take (length dest) target_path \<noteq> dest then Inl OutsideDestinationError
         else if for_data \<and> mtype m \<in> {CHRTYPE, BLKTYPE, FIFOTYPE} then Inl SpecialFileError
         else Inr (m\<lparr>name := nm\<rparr>))"

fun apply_filter :: "env \<Rightarrow> extraction_filter \<Rightarrow> member \<Rightarrow> string \<Rightarrow> error + member" where
  "apply_filter e fully_trusted m dest_path = Inr m"
| "apply_filter e tar m dest_path = get_filtered_attrs e m dest_path False"
| "apply_filter e data_only m dest_path = get_filtered_attrs e m dest_path True"

text \<open>
  \<open>os.path.exists\<close>: something is at the path; a path made of separators only is the
  root directory, which always exists.
\<close>

definition is_root :: "string \<Rightarrow> bool" where
  "is_root p = (p \<noteq> [] \<and> (\<forall>c \<in> set p. c = sep))"

definition path_exists :: "fs \<Rightarrow> string \<Rightarrow> bool" where
  "path_exists disk p = (disk p \<noteq> None \<or> is_root p)"

text \<open>
  \<open>os.mkdir\<close>: the path must not exist, and its parent must be a directory (the working
  directory for a bare name).
\<close>

definition mkdir :: "fs \<Rightarrow> string \<Rightarrow> outcome" where
  "mkdir disk p =
     (if path_exists disk p then (disk, Some FileExistsError)
      else if dirname p = [] \<or> is_root (dirname p) then (disk(p \<mapsto> Dir), None)
      else (case disk (dirname p) of
              None \<Rightarrow> (disk, Some FileNotFoundError)
            | Some Dir \<Rightarrow> (disk(p \<mapsto> Dir), None)
            | Some _ \<Rightarrow> (disk, Some NotADirectoryError)))"

text \<open>
  \<open>os.makedirs(name)\<close>: \<open>head, tail = path.split(name)\<close>, split once more when the name
  ends in a separator; a missing \<open>head\<close> is created first, by the same function, and a
  \<open>FileExistsError\<close> from that call is passed over; then \<open>mkdir(name)\<close>, whose errors
  are raised (\<open>exist_ok\<close> is false).
\<close>

definition split_head :: "string \<Rightarrow> string" where
  "split_head p = (if basename p = [] then dirname (dirname p) else dirname p)"

definition split_tail :: "string \<Rightarrow> string" where
  "split_tail p = (if basename p = [] then basename (dirname p) else basename p)"

function makedirs :: "fs \<Rightarrow> string \<Rightarrow> outcome" where
  "makedirs disk p =
     (if split_head p \<noteq> [] \<and> split_tail p \<noteq> [] \<and> \<not> path_exists disk (split_head p) then
        (case makedirs disk (split_head p) of
           (disk1, Some e) \<Rightarrow>
             if e = FileExistsError
             then (if split_tail p = ''.'' then (disk1, None) else mkdir disk1 p)
             else (disk1, Some e)
         | (disk1, None) \<Rightarrow> (if split_tail p = ''.'' then (disk1, None) else mkdir disk1 p))
      else mkdir disk p)"
  by pat_completeness auto

termination
proof -
  have parts: "length (rev (dropWhile (\<lambda>c. c \<noteq> sep) (rev q))) + length (basename q) = length q"
    for q :: string
  proof -
    have "length (takeWhile (\<lambda>c. c \<noteq> sep) (rev q)) + length (dropWhile (\<lambda>c. c \<noteq> sep) (rev q))
        = length (rev q)"
      by (metis length_append takeWhile_dropWhile_id)
    then show ?thesis by (simp add: basename_def)
  qed
  have strip: "length (rstrip_sep h) \<le> length h" for h :: string
    unfolding rstrip_sep_def using length_dropWhile_le[of "\<lambda>c. c = sep" "rev h"] by simp
  have le: "length (dirname q) + length (basename q) \<le> length q" for q :: string
    using parts[of q] strip[of "rev (dropWhile (\<lambda>c. c \<noteq> sep) (rev q))"]
    by (simp add: dirname_def Let_def)
  have lt: "length (dirname q) < length q" if "basename q \<noteq> []" for q :: string
  proof -
    from that have "0 < length (basename q)" by simp
    with le[of q] show ?thesis by linarith
  qed
  have shorter: "length (split_head p) < length p" if t: "split_tail p \<noteq> []" for p :: string
  proof (cases "basename p = []")
    case False
    with lt[of p] show ?thesis by (simp add: split_head_def)
  next
    case True
    with t have "basename (dirname p) \<noteq> []" by (simp add: split_tail_def)
    from lt[OF this] le[of p] True show ?thesis by (simp add: split_head_def)
  qed
  show ?thesis
    by (relation "measure (\<lambda>(disk, p). length p)") (simp_all add: shorter)
qed

text \<open>
  Whether the process may open an existing regular file of its own for writing: the
  superuser always, anyone else when the owner's write bit (\<open>0o200\<close>) is set.
\<close>

definition may_write :: "env \<Rightarrow> nat \<Rightarrow> bool" where
  "may_write e md = (euid e = 0 \<or> odd (md div 128))"

text \<open>
  \<open>TarFile.makefile\<close> and the \<open>TarFile.chmod\<close> that follows it in \<open>_extract_member\<close>:
  \<open>open(targetpath, "wb")\<close>, copy the member's bytes, set the member's permission bits.
  Opening fails on the empty path, on a directory (also when the last component is \<open>.\<close>
  or \<open>..\<close>), when the parent is missing or a regular file, and on an existing regular
  file that the process may not write; an existing regular file that it may write is
  truncated and overwritten without any error (a container at the target is taken to be
  writable).
\<close>

definition makefile :: "env \<Rightarrow> fs \<Rightarrow> member \<Rightarrow> string \<Rightarrow> outcome" where
  "makefile e disk tarinfo targetpath =
     (if targetpath = [] then (disk, Some FileNotFoundError)
      else if disk targetpath = Some Dir \<or> basename targetpath \<in> {[], ''.'', ''..''}
        then (disk, Some IsADirectoryError)
      else if dirname targetpath \<noteq> [] \<and> \<not> path_exists disk (dirname targetpath)
        then (disk, Some FileNotFoundError)
      else (case disk (dirname targetpath) of
              Some (Reg _ _) \<Rightarrow> (disk, Some NotADirectoryError)
            | Some (Archive _) \<Rightarrow> (disk, Some NotADirectoryError)
            | _ \<Rightarrow>
               (case disk targetpath of
                  Some (Reg md _) \<Rightarrow>
                    if may_write e md
                    then (disk(targetpath \<mapsto> Reg (mode tarinfo) (data tarinfo)), None)
                    else (disk, Some PermissionError)
                | _ \<Rightarrow> (disk(targetpath \<mapsto> Reg (mode tarinfo) (data tarinfo)), None))))"

text \<open>
  \<open>TarFile._extract_member\<close> for a regular file: trailing separators are stripped from the
  target (\<open>targetpath.rstrip("/")\<close>), the missing upper directories are created
  (\<open>os.makedirs\<close>, whose error is raised), then the file is made. Members of other types
  never reach this call from the extractor; nothing is written for them here.
\<close>

definition extract_member :: "env \<Rightarrow> fs \<Rightarrow> member \<Rightarrow> string \<Rightarrow> outcome" where
  "extract_member e disk tarinfo targetpath0 =
     (let targetpath = rstrip_sep targetpath0;
          upperdirs = dirname targetpath
      in case (if upperdirs \<noteq> [] \<and> \<not> path_exists disk upperdirs
               then makedirs disk upperdirs else (disk, None)) of
           (disk1, Some err) \<Rightarrow> (disk1, Some err)
         | (disk1, None) \<Rightarrow>
             if isfile tarinfo then makefile e disk1 tarinfo targetpath else (disk1, None))"

text \<open>
  \<open>tar.extract(member, path=path, filter=flt)\<close> with the default \<open>errorlevel\<close> of 1: the
  filter runs first, then the member is written at \<open>os.path.join(path, member.name)\<close>;
  every \<open>OSError\<close> and \<open>FilterError\<close> is raised to the caller.
\<close>

definition tar_extract :: "env \<Rightarrow> fs \<Rightarrow> member \<Rightarrow> string \<Rightarrow> extraction_filter \<Rightarrow> outcome" where
  "tar_extract e disk m path flt =
     (case apply_filter e flt m path of
        Inl err \<Rightarrow> (disk, Some err)
      | Inr tarinfo \<Rightarrow> extract_member e disk tarinfo (join path (name tarinfo)))"

text \<open>\<open>os.remove(path)\<close>.\<close>

definition os_remove :: "fs \<Rightarrow> string \<Rightarrow> outcome" where
  "os_remove disk p =
     (case disk p of
        None \<Rightarrow> (disk, Some FileNotFoundError)
      | Some Dir \<Rightarrow> (disk, Some IsADirectoryError)
      | Some _ \<Rightarrow> (disk(p := None), None))"

section \<open>\<open>extract_validated_and_clips_from_tar\<close>\<close>

text \<open>
  The body of the \<open>for member in tar.getmembers()\<close> loop: the \<open>if\<close>/\<open>elif\<close> chain on the
  member's name, the in-place rename and the \<open>tar.extract\<close> call with
  \<open>filter="fully_trusted"\<close>.
\<close>

definition process_member :: "env \<Rightarrow> fs \<Rightarrow> string \<Rightarrow> member \<Rightarrow> outcome" where
  "process_member e disk extract_path m =
     (if isfile m then
        (if endswith (name m) ''validated.tsv''
           then tar_extract e disk (m\<lparr>name := ''validated.tsv''\<rparr>) extract_path fully_trusted
         else if str_in ''clips/'' (name m)
           then tar_extract e disk (m\<lparr>name := join ''clips'' (basename (name m))\<rparr>)
                  extract_path fully_trusted
         else (disk, None))
      else (disk, None))"

text \<open>The loop: an exception raised by one member ends it, and the rest is not visited.\<close>

fun extract_loop :: "env \<Rightarrow> fs \<Rightarrow> string \<Rightarrow> member list \<Rightarrow> outcome" where
  "extract_loop e disk extract_path [] = (disk, None)"
| "extract_loop e disk extract_path (m # ms) =
     (case process_member e disk extract_path m of
        (disk1, Some err) \<Rightarrow> (disk1, Some err)
      | (disk1, None) \<Rightarrow> extract_loop e disk1 extract_path ms)"

text \<open>
  The whole function. \<open>os.remove(file_path)\<close> is the statement after the \<open>with\<close> block: it
  is reached only when the block ends without an exception.
\<close>

definition extract_validated_and_clips_from_tar :: "env \<Rightarrow> fs \<Rightarrow> string \<Rightarrow> string \<Rightarrow> outcome" where
  "extract_validated_and_clips_from_tar e disk file_path extract_path =
     (case tarfile_open disk file_path of
        Inl err \<Rightarrow> (disk, Some err)
      | Inr ms \<Rightarrow>
          (case extract_loop e disk extract_path ms of
             (disk1, Some err) \<Rightarrow> (disk1, Some err)
           | (disk1, None) \<Rightarrow> os_remove disk1 file_path))"

section \<open>\<open>load_validated_data\<close>\<close>

text \<open>
  A cell of a pandas object column: a string, the missing value \<open>NaN\<close> that the parser
  produces, or Python's \<open>None\<close>, which the category function returns. A row of the frame
  loaded with \<open>usecols=['path', 'gender']\<close> has exactly these two cells.
\<close>

datatype cell = NaN | PyNone | Str string

record row =
  path :: cell
  gender :: cell

definition tab :: char where
  "tab = CHR 0x09"

definition newline :: char where
  "newline = CHR 0x0A"

text \<open>The spellings that the parser reads as a missing value by default.\<close>

definition na_values :: "string list" where
  "na_values = ['''', ''#N/A'', ''#N/A N/A'', ''#NA'', ''-1.#IND'', ''-1.#QNAN'', ''-NaN'',
     ''-nan'', ''1.#IND'', ''1.#QNAN'', ''<NA>'', ''N/A'', ''NA'', ''NULL'', ''NaN'', ''None'',
     ''n/a'', ''nan'', ''null'']"

definition to_cell :: "string \<Rightarrow> cell" where
  "to_cell s = (if s \<in> set na_values then NaN else Str s)"

fun index_of :: "string \<Rightarrow> string list \<Rightarrow> nat option" where
  "index_of x [] = None"
| "index_of x (y # ys) = (if x = y then Some 0 else map_option Suc (index_of x ys))"

definition field_at :: "string list \<Rightarrow> nat \<Rightarrow> cell" where
  "field_at flds i = (if i < length flds then to_cell (flds ! i) else NaN)"

fun parse_rows :: "char \<Rightarrow> nat \<Rightarrow> nat \<Rightarrow> nat \<Rightarrow> string list \<Rightarrow> error + row list" where
  "parse_rows d width ip ig [] = Inr []"
| "parse_rows d width ip ig (l # ls) =
     (let flds = split_on d l
      in if width < length flds then Inl ParserError
         else (case parse_rows d width ip ig ls of
                 Inl e \<Rightarrow> Inl e
               | Inr rs \<Rightarrow> Inr (\<lparr>path = field_at flds ip, gender = field_at flds ig\<rparr> # rs)))"

text \<open>
  Modelled from the spec: \<open>pandas.read_csv\<close>, the parser that \<open>load_validated_data\<close>
  calls, is a library outside the repository. The model reads the file as lines, takes the
  first non-blank line as the header, splits every line at the separator, raises
  \<open>ValueError\<close> when a column of \<open>usecols\<close> is not in the header, and keeps the cells of
  the two requested columns of every row in file order; a short row is padded with
  missing values and a row longer than the header is a parse error. Quoting and numeric
  type inference are left out.
\<close>

definition read_csv :: "fs \<Rightarrow> string \<Rightarrow> char \<Rightarrow> string \<Rightarrow> string \<Rightarrow> error + row list" where
  "read_csv disk file_path d col_path col_gender =
     (case disk file_path of
        None \<Rightarrow> Inl FileNotFoundError
      | Some Dir \<Rightarrow> Inl IsADirectoryError
      | Some (Archive _) \<Rightarrow> Inl ParserError
      | Some (Reg _ s) \<Rightarrow>
          (case filter (\<lambda>l. l \<noteq> []) (split_on newline s) of
             [] \<Rightarrow> Inl EmptyDataError
           | header # ls \<Rightarrow>
               (case (index_of col_path (split_on d header),
                      index_of col_gender (split_on d header)) of
                  (Some ip, Some ig) \<Rightarrow> parse_rows d (length (split_on d header)) ip ig ls
                | _ \<Rightarrow> Inl ValueError)))"

text \<open>\<open>Series.notna\<close>: neither \<open>NaN\<close> nor \<open>None\<close>.\<close>

definition notna :: "cell \<Rightarrow> bool" where
  "notna c = (c \<noteq> NaN \<and> c \<noteq> PyNone)"

text \<open>The function applied to the \<open>gender\<close> column (the \<open>lambda\<close> of the source).\<close>

definition simplify_gender :: "cell \<Rightarrow> cell" where
  "simplify_gender x =
     (if x \<in> set [Str ''male_masculine'', Str ''male''] then Str ''male''
      else if x \<in> set [Str ''female_feminine'', Str ''female''] then Str ''female''
      else PyNone)"

definition load_validated_data :: "fs \<Rightarrow> string \<Rightarrow> error + row list" where
  "load_validated_data disk file_path =
     (case read_csv disk file_path tab ''path'' ''gender'' of
        Inl e \<Rightarrow> Inl e
      | Inr df \<Rightarrow>
          (let df1 = filter (\<lambda>r. notna (gender r)) df;
               df2 = map (\<lambda>r. r\<lparr>gender := simplify_gender (gender r)\<rparr>) df1
           in Inr df2))"

section \<open>Derived notions and example inputs\<close>

text \<open>
  The path at which \<open>process_member\<close> asks the library to write a member, if it extracts
  the member at all: the joined path with its trailing separators stripped, as
  \<open>extract_member\<close> computes it.
\<close>

definition target_of :: "string \<Rightarrow> member \<Rightarrow> string option" where
  "target_of extract_path m =
     (if isfile m then
        (if endswith (name m) ''validated.tsv''
           then Some (rstrip_sep (join extract_path ''validated.tsv''))
         else if str_in ''clips/'' (name m)
           then Some (rstrip_sep (join extract_path (join ''clips'' (basename (name m)))))
         else None)
      else None)"

text \<open>An unprivileged process and a superuser process.\<close>

definition user_env :: env where
  "user_env = \<lparr>euid = 1000, cwd = ''/home/user''\<rparr>"

definition root_env :: env where
  "root_env = \<lparr>euid = 0, cwd = ''/srv''\<rparr>"

text \<open>
  A metadata file with an extra leading column and the four rows of the loader scenario:
  \<open>male\<close>, \<open>female_feminine\<close>, an empty label and \<open>other\<close>.
\<close>

definition scenario_tsv :: string where
  "scenario_tsv =
     ''client_id'' @ [tab] @ ''path'' @ [tab] @ ''gender'' @ [newline]
     @ ''c1'' @ [tab] @ ''a.mp3'' @ [tab] @ ''male'' @ [newline]
     @ ''c2'' @ [tab] @ ''b.mp3'' @ [tab] @ ''female_feminine'' @ [newline]
     @ ''c3'' @ [tab] @ ''c.mp3'' @ [tab] @ [newline]
     @ ''c4'' @ [tab] @ ''d.mp3'' @ [tab] @ ''other'' @ [newline]"

definition scenario_rows :: "row list" where
  "scenario_rows =
     [\<lparr>path = Str ''a.mp3'', gender = Str ''male''\<rparr>,
      \<lparr>path = Str ''b.mp3'', gender = Str ''female_feminine''\<rparr>,
      \<lparr>path = Str ''c.mp3'', gender = NaN\<rparr>,
      \<lparr>path = Str ''d.mp3'', gender = Str ''other''\<rparr>]"

definition scenario_out :: "row list" where
  "scenario_out =
     [\<lparr>path = Str ''a.mp3'', gender = Str ''male''\<rparr>,
      \<lparr>path = Str ''b.mp3'', gender = Str ''female''\<rparr>,
      \<lparr>path = Str ''d.mp3'', gender = PyNone\<rparr>]"

definition tsv_disk :: fs where
  "tsv_disk = [''out/validated.tsv'' \<mapsto> Reg 420 scenario_tsv]"

text \<open>A metadata file whose header has no \<open>gender\<close> column.\<close>

definition no_gender_tsv :: string where
  "no_gender_tsv =
     ''path'' @ [tab] @ ''age'' @ [newline] @ ''a.mp3'' @ [tab] @ ''thirties'' @ [newline]"

definition no_gender_disk :: fs where
  "no_gender_disk = [''out/validated.tsv'' \<mapsto> Reg 420 no_gender_tsv]"

text \<open>
  The archive scenario: the metadata file and two clips that share a basename, all with
  the permission bits \<open>0o644\<close> (420).
\<close>

definition scenario_members :: "member list" where
  "scenario_members =
     [\<lparr>name = ''en'', mtype = DIRTYPE, mode = 493, data = []\<rparr>,
      \<lparr>name = ''en/validated.tsv'', mtype = REGTYPE, mode = 420, data = ''V''\<rparr>,
      \<lparr>name = ''en/other.tsv'', mtype = REGTYPE, mode = 420, data = ''O''\<rparr>,
      \<lparr>name = ''en/clips/x/1.mp3'', mtype = REGTYPE, mode = 420, data = ''X''\<rparr>,
      \<lparr>name = ''en/clips/y/1.mp3'', mtype = REGTYPE, mode = 420, data = ''Y''\<rparr>]"

definition scenario_disk :: fs where
  "scenario_disk = [''out'' \<mapsto> Dir, ''cv.tar'' \<mapsto> Archive scenario_members]"



text \<open>
  A destination in which \<open>validated.tsv\<close> is a directory, so that writing the metadata
  file raises, and a container holding just that member.
\<close>

definition metadata_member :: member where
  "metadata_member = \<lparr>name = ''en/validated.tsv'', mtype = REGTYPE, mode = 420, data = ''V''\<rparr>"


text \<open>
  A container that lies at the path of the metadata file itself, holding the metadata
  member and a clip named \<open>..\<close>, whose extraction raises.
\<close>

definition dotdot_clip :: member where
  "dotdot_clip = \<lparr>name = ''en/clips/..'', mtype = REGTYPE, mode = 420, data = ''D''\<rparr>"

definition container_at_target_disk :: fs where
  "container_at_target_disk =
     [''out'' \<mapsto> Dir, ''out/validated.tsv'' \<mapsto> Archive [metadata_member, dotdot_clip]]"

text \<open>
  A member with an absolute name, as an adversarial archive may carry: what the three
  extraction policies make of it when it is handed to the library without a rename.
\<close>

definition absolute_member :: member where
  "absolute_member = \<lparr>name = ''/etc/cron.d/job'', mtype = REGTYPE, mode = 420, data = ''J''\<rparr>"




text \<open>A container with the metadata files of two languages.\<close>

definition two_metadata_disk :: fs where
  "two_metadata_disk =
     [''out'' \<mapsto> Dir,
      ''cv.tar'' \<mapsto> Archive
         [\<lparr>name = ''en/validated.tsv'', mtype = REGTYPE, mode = 420, data = ''E''\<rparr>,
          \<lparr>name = ''fr/validated.tsv'', mtype = REGTYPE, mode = 420, data = ''F''\<rparr>]]"

text \<open>
  A container whose only member lies in a directory named \<open>audioclips\<close>, and one whose only
  member is a regular file with a name that ends in a separator.
\<close>

definition audioclips_member :: member where
  "audioclips_member = \<lparr>name = ''audioclips/a.mp3'', mtype = REGTYPE, mode = 420, data = ''A''\<rparr>"

definition audioclips_disk :: fs where
  "audioclips_disk = [''out'' \<mapsto> Dir, ''cv.tar'' \<mapsto> Archive [audioclips_member]]"

definition trailing_sep_member :: member where
  "trailing_sep_member = \<lparr>name = ''en/clips/'', mtype = REGTYPE, mode = 420, data = ''B''\<rparr>"

definition trailing_sep_disk :: fs where
  "trailing_sep_disk = [''out'' \<mapsto> Dir, ''cv.tar'' \<mapsto> Archive [trailing_sep_member]]"

section \<open>Lemmas\<close>

subsection \<open>Facts about paths\<close>

text \<open>
  The targets of the two rules are the destination prefix \<open>join extract_path []\<close>
  followed by \<open>validated.tsv\<close>, by \<open>clips\<close> or by \<open>clips/b\<close> for the basename \<open>b\<close>.
\<close>

lemma basename_no_sep: "sep \<notin> set (basename p)"
  unfolding basename_def using set_takeWhileD by fastforce

lemma join_rel: "\<not> startswith b [sep] \<Longrightarrow> join a b = join a [] @ b"
  by (simp add: join_def startswith_def)

lemma join_validated: "join a ''validated.tsv'' = join a [] @ ''validated.tsv''"
  by (rule join_rel) (simp add: startswith_def sep_def)

lemma join_clips_dir: "join a ''clips'' = join a [] @ ''clips''"
  by (rule join_rel) (simp add: startswith_def sep_def)

lemma join_clips_file: "join a (''clips/'' @ b) = join a [] @ ''clips/'' @ b"
  by (rule join_rel) (simp add: startswith_def sep_def)

lemma join_clips: "sep \<notin> set b \<Longrightarrow> join ''clips'' b = ''clips/'' @ b"
  by (cases b) (auto simp: join_def startswith_def endswith_def sep_def)

lemma rstrip_sep_keep: "b \<noteq> [] \<Longrightarrow> last b \<noteq> sep \<Longrightarrow> rstrip_sep (xs @ b) = xs @ b"
  by (cases b rule: rev_cases) (auto simp: rstrip_sep_def)

lemma rstrip_sep_snoc: "rstrip_sep (xs @ [sep]) = rstrip_sep xs"
  by (simp add: rstrip_sep_def)

lemma rstrip_validated: "rstrip_sep (join a ''validated.tsv'') = join a [] @ ''validated.tsv''"
  unfolding join_validated by (rule rstrip_sep_keep) (simp_all add: sep_def)

lemma last_no_sep: "b \<noteq> [] \<Longrightarrow> sep \<notin> set b \<Longrightarrow> last b \<noteq> sep"
  using last_in_set by metis

lemma rstrip_clips:
  assumes "sep \<notin> set b"
  shows "rstrip_sep (join a (join ''clips'' b))
           = join a [] @ (if b = [] then ''clips'' else ''clips/'' @ b)"
proof (cases "b = []")
  case True
  have "rstrip_sep ((join a [] @ ''clips'') @ [sep]) = join a [] @ ''clips''"
    unfolding rstrip_sep_snoc by (rule rstrip_sep_keep) (simp_all add: sep_def)
  moreover have "join a (join ''clips'' []) = (join a [] @ ''clips'') @ [sep]"
    using join_clips_file[of a "[]"] by (simp add: join_clips sep_def)
  ultimately show ?thesis using True by simp
next
  case False
  have "rstrip_sep ((join a [] @ ''clips/'') @ b) = (join a [] @ ''clips/'') @ b"
    using False assms by (intro rstrip_sep_keep last_no_sep)
  moreover have "join a (join ''clips'' b) = (join a [] @ ''clips/'') @ b"
    using join_clips_file[of a b] assms by (simp add: join_clips)
  ultimately show ?thesis using False by simp
qed

lemma target_of_eq:
  "target_of extract_path m =
     (if isfile m then
        (if endswith (name m) ''validated.tsv''
           then Some (join extract_path [] @ ''validated.tsv'')
         else if str_in ''clips/'' (name m)
           then Some (join extract_path [] @
                  (if basename (name m) = [] then ''clips'' else ''clips/'' @ basename (name m)))
         else None)
      else None)"
  by (simp add: target_of_def rstrip_validated rstrip_clips basename_no_sep)

lemma basename_append: "sep \<notin> set b \<Longrightarrow> basename (xs @ [sep] @ b) = b"
proof -
  assume a: "sep \<notin> set b"
  have "takeWhile (\<lambda>c. c \<noteq> sep) (rev b @ sep # rev xs) = takeWhile (\<lambda>c. c \<noteq> sep) (rev b)"
    by (rule takeWhile_tail) simp
  also from a have "\<dots> = rev b"
    by (auto simp: takeWhile_eq_all_conv)
  finally show ?thesis by (simp add: basename_def)
qed



lemma rstrip_sep_length: "length (rstrip_sep s) \<le> length s"
  unfolding rstrip_sep_def using length_dropWhile_le[of _ "rev s"] by simp

lemma dirname_length:
  assumes "sep \<notin> set s"
  shows "length (dirname (xs @ s)) \<le> length xs"
proof -
  let ?h = "rev (dropWhile (\<lambda>c. c \<noteq> sep) (rev (xs @ s)))"
  from assms have "dropWhile (\<lambda>c. c \<noteq> sep) (rev s @ rev xs) = dropWhile (\<lambda>c. c \<noteq> sep) (rev xs)"
    by (intro dropWhile_append2) auto
  then have "length ?h \<le> length xs"
    using length_dropWhile_le[of "\<lambda>c. c \<noteq> sep" "rev xs"] by simp
  moreover have "length (rstrip_sep ?h) \<le> length ?h" by (rule rstrip_sep_length)
  ultimately show ?thesis by (simp add: dirname_def Let_def)
qed

lemma dirname_le: "length (dirname p) \<le> length p"
  using dirname_length[of "[]" p] by simp

lemma split_head_le: "length (split_head p) \<le> length p"
  using dirname_le[of p] dirname_le[of "dirname p"] by (simp add: split_head_def)





lemma target_validated:
  "(target_of extract_path m = Some (join extract_path ''validated.tsv''))
     = (isfile m \<and> endswith (name m) ''validated.tsv'')"
  by (auto simp: target_of_eq join_validated)


lemma split_on_nonempty: "split_on d s \<noteq> []"
  by (induction s) (auto split: list.splits)

lemma split_on_head:
  "split_on d s = w # ws \<Longrightarrow> ws \<noteq> [] \<Longrightarrow> startswith s (w @ [d])"
proof (induction s arbitrary: w ws)
  case Nil
  then show ?case by simp
next
  case (Cons c cs)
  show ?case
  proof (cases "c = d")
    case True
    with Cons.prems show ?thesis by (auto simp: startswith_def)
  next
    case False
    with Cons.prems obtain w0 where s: "split_on d cs = w0 # ws" and w: "w = c # w0"
      by (auto split: list.splits)
    from Cons.IH[OF s Cons.prems(2)] w show ?thesis by (simp add: startswith_def)
  qed
qed

lemma segment_is_substring:
  "w \<in> set (butlast (split_on d s)) \<Longrightarrow> str_in (w @ [d]) s"
proof (induction s)
  case Nil
  then show ?case by simp
next
  case (Cons c cs)
  show ?case
  proof (cases "c = d")
    case True
    with Cons.prems have "w = [] \<or> w \<in> set (butlast (split_on d cs))"
      by (auto simp: split_on_nonempty)
    then show ?thesis
    proof
      assume "w = []"
      with True show ?thesis by (simp add: startswith_def)
    next
      assume "w \<in> set (butlast (split_on d cs))"
      from Cons.IH[OF this] show ?thesis by simp
    qed
  next
    case False
    obtain w0 ws where s: "split_on d cs = w0 # ws"
      using split_on_nonempty[of d cs] by (cases "split_on d cs") auto
    with False have sp: "split_on d (c # cs) = (c # w0) # ws" by simp
    show ?thesis
    proof (cases "ws = []")
      case True
      with sp Cons.prems show ?thesis by simp
    next
      case ne: False
      with sp Cons.prems have "w = c # w0 \<or> w \<in> set (butlast ws)" by auto
      then show ?thesis
      proof
        assume "w = c # w0"
        with split_on_head[OF sp ne] show ?thesis by simp
      next
        assume "w \<in> set (butlast ws)"
        with s ne have "w \<in> set (butlast (split_on d cs))" by simp
        from Cons.IH[OF this] show ?thesis by simp
      qed
    qed
  qed
qed



subsection \<open>Extracting one member\<close>

text \<open>
  A step changes the disk at the member's target, where it puts the member's permission
  bits and bytes, and at directories above the target, which it creates where nothing is.
\<close>

declare makedirs.simps [simp del]

lemma mkdir_frame:
  "fst (mkdir disk p) k \<noteq> disk k \<Longrightarrow> k = p \<and> disk k = None \<and> fst (mkdir disk p) k = Some Dir"
  unfolding mkdir_def path_exists_def
  by (simp split: if_splits option.splits node.splits)

lemma makedirs_frame:
  "fst (makedirs disk p) k \<noteq> disk k \<Longrightarrow>
     disk k = None \<and> fst (makedirs disk p) k = Some Dir \<and> length k \<le> length p"
proof (induction disk p arbitrary: k rule: makedirs.induct)
  case (1 disk p)
  let ?c = "split_head p \<noteq> [] \<and> split_tail p \<noteq> [] \<and> \<not> path_exists disk (split_head p)"
  show ?case
  proof (cases ?c)
    case False
    then have "makedirs disk p = mkdir disk p" by (subst makedirs.simps) auto
    with "1.prems" mkdir_frame[of disk p k] show ?thesis by auto
  next
    case True
    let ?d1 = "fst (makedirs disk (split_head p))"
    have ih: "disk j = None \<and> ?d1 j = Some Dir \<and> length j \<le> length p" if "?d1 j \<noteq> disk j" for j
      using "1.IH"[of j] True that split_head_le[of p] by auto
    from True have "fst (makedirs disk p) = ?d1 \<or> fst (makedirs disk p) = fst (mkdir ?d1 p)"
      by (cases "makedirs disk (split_head p)")
         (auto simp: makedirs.simps[of disk p] split: option.splits)
    then show ?thesis
    proof
      assume "fst (makedirs disk p) = ?d1"
      with "1.prems" ih[of k] show ?thesis by auto
    next
      assume m: "fst (makedirs disk p) = fst (mkdir ?d1 p)"
      show ?thesis
      proof (cases "fst (mkdir ?d1 p) k = ?d1 k")
        case True
        with m "1.prems" ih[of k] show ?thesis by auto
      next
        case False
        from mkdir_frame[OF False] have k: "k = p" "?d1 k = None" "fst (mkdir ?d1 p) k = Some Dir"
          by blast+
        have "disk k = None"
        proof (cases "?d1 k = disk k")
          case True
          with k show ?thesis by auto
        next
          case False
          from ih[OF False] show ?thesis by auto
        qed
        with k m show ?thesis by auto
      qed
    qed
  qed
qed

lemma makefile_result:
  "(\<exists>err. makefile e disk ti t = (disk, Some err))
   \<or> (makefile e disk ti t = (disk(t \<mapsto> Reg (mode ti) (data ti)), None) \<and> t \<noteq> []
      \<and> basename t \<noteq> [] \<and> basename t \<noteq> ''.'' \<and> basename t \<noteq> ''..'')"
proof (cases "t = [] \<or> disk t = Some Dir \<or> basename t \<in> {[], ''.'', ''..''}
    \<or> (dirname t \<noteq> [] \<and> \<not> path_exists disk (dirname t))")
  case True
  then show ?thesis by (auto simp: makefile_def)
next
  case False
  then have m: "makefile e disk ti t =
      (case disk (dirname t) of
              Some (Reg _ _) \<Rightarrow> (disk, Some NotADirectoryError)
            | Some (Archive _) \<Rightarrow> (disk, Some NotADirectoryError)
            | _ \<Rightarrow>
               (case disk t of
                  Some (Reg md _) \<Rightarrow>
                    if may_write e md
                    then (disk(t \<mapsto> Reg (mode ti) (data ti)), None)
                    else (disk, Some PermissionError)
                | _ \<Rightarrow> (disk(t \<mapsto> Reg (mode ti) (data ti)), None)))"
    by (auto simp: makefile_def)
  from False have ok: "t \<noteq> [] \<and> basename t \<noteq> [] \<and> basename t \<noteq> ''.'' \<and> basename t \<noteq> ''..''"
    by simp
  show ?thesis unfolding m using ok
    by (simp split: option.split node.split)
qed

lemma makefile_frame:
  "fst (makefile e disk ti t) k \<noteq> disk k \<Longrightarrow>
     k = t \<and> fst (makefile e disk ti t) k = Some (Reg (mode ti) (data ti))
     \<and> basename t \<noteq> [] \<and> basename t \<noteq> ''.'' \<and> basename t \<noteq> ''..''"
  using makefile_result[of e disk ti t] by (auto split: if_splits)

lemma makefile_write:
  "snd (makefile e disk ti t) = None \<Longrightarrow>
     fst (makefile e disk ti t) t = Some (Reg (mode ti) (data ti)) \<and> t \<noteq> []
     \<and> basename t \<noteq> [] \<and> basename t \<noteq> ''.'' \<and> basename t \<noteq> ''..''"
  using makefile_result[of e disk ti t] by auto

lemma extract_member_unfold:
  "extract_member e disk ti p =
     (let d = (if dirname (rstrip_sep p) \<noteq> [] \<and> \<not> path_exists disk (dirname (rstrip_sep p))
               then makedirs disk (dirname (rstrip_sep p)) else (disk, None))
      in if snd d \<noteq> None then d
         else if isfile ti then makefile e (fst d) ti (rstrip_sep p) else (fst d, None))"
  by (cases "makedirs disk (dirname (rstrip_sep p))")
     (auto simp: extract_member_def Let_def split: option.splits)

lemma extract_member_frame:
  assumes "fst (extract_member e disk ti p) k \<noteq> disk k"
  shows "(isfile ti \<and> k = rstrip_sep p
          \<and> fst (extract_member e disk ti p) k = Some (Reg (mode ti) (data ti))
          \<and> basename k \<noteq> [] \<and> basename k \<noteq> ''.'' \<and> basename k \<noteq> ''..'')
       \<or> (length k \<le> length (dirname (rstrip_sep p)) \<and> disk k = None
          \<and> fst (extract_member e disk ti p) k = Some Dir)"
proof -
  let ?t = "rstrip_sep p"
  define d where "d = (if dirname ?t \<noteq> [] \<and> \<not> path_exists disk (dirname ?t)
               then makedirs disk (dirname ?t) else (disk, None))"
  have em: "extract_member e disk ti p =
      (if snd d \<noteq> None then d
       else if isfile ti then makefile e (fst d) ti ?t else (fst d, None))"
    unfolding extract_member_unfold d_def Let_def by simp
  have d1: "length k \<le> length (dirname ?t) \<and> disk k = None \<and> fst d k = Some Dir"
    if "fst d k \<noteq> disk k"
    using that makedirs_frame[of disk "dirname ?t" k] by (auto simp: d_def split: if_splits)
  show ?thesis
  proof (cases "fst (extract_member e disk ti p) k = fst d k")
    case True
    with assms have "fst d k \<noteq> disk k" by simp
    from d1[OF this] True show ?thesis by simp
  next
    case False
    with em have mf: "extract_member e disk ti p = makefile e (fst d) ti ?t" and f: "isfile ti"
      by (auto split: if_splits)
    from False mf have "fst (makefile e (fst d) ti ?t) k \<noteq> fst d k" by simp
    from makefile_frame[OF this] mf f show ?thesis by auto
  qed
qed

lemma extract_member_write:
  assumes "snd (extract_member e disk ti p) = None" "isfile ti"
  shows "fst (extract_member e disk ti p) (rstrip_sep p) = Some (Reg (mode ti) (data ti))
     \<and> rstrip_sep p \<noteq> []
     \<and> basename (rstrip_sep p) \<noteq> [] \<and> basename (rstrip_sep p) \<noteq> ''.'' \<and> basename (rstrip_sep p) \<noteq> ''..''"
proof -
  let ?t = "rstrip_sep p"
  define d where "d = (if dirname ?t \<noteq> [] \<and> \<not> path_exists disk (dirname ?t)
               then makedirs disk (dirname ?t) else (disk, None))"
  have em: "extract_member e disk ti p =
      (if snd d \<noteq> None then d
       else if isfile ti then makefile e (fst d) ti ?t else (fst d, None))"
    unfolding extract_member_unfold d_def Let_def by simp
  with assms have "extract_member e disk ti p = makefile e (fst d) ti ?t"
    by (auto split: if_splits)
  with assms(1) makefile_write[of e "fst d" ti ?t] show ?thesis by simp
qed

lemma process_member_cases:
  "process_member e disk extract_path m =
     (case target_of extract_path m of
        None \<Rightarrow> (disk, None)
      | Some t \<Rightarrow>
          (if endswith (name m) ''validated.tsv''
           then extract_member e disk (m\<lparr>name := ''validated.tsv''\<rparr>) (join extract_path ''validated.tsv'')
           else extract_member e disk (m\<lparr>name := join ''clips'' (basename (name m))\<rparr>)
                  (join extract_path (join ''clips'' (basename (name m))))))"
  by (simp add: process_member_def target_of_def tar_extract_def)

lemma isfile_rename [simp]: "isfile (m\<lparr>name := n\<rparr>) = isfile m"
  by (simp add: isfile_def)

lemma process_member_frame:
  assumes "fst (process_member e disk extract_path m) k \<noteq> disk k"
  shows "(target_of extract_path m = Some k
          \<and> fst (process_member e disk extract_path m) k = Some (Reg (mode m) (data m))
          \<and> basename k \<noteq> [] \<and> basename k \<noteq> ''.'' \<and> basename k \<noteq> ''..'')
       \<or> ((\<exists>t. target_of extract_path m = Some t \<and> length k \<le> length (dirname t))
          \<and> disk k = None
          \<and> fst (process_member e disk extract_path m) k = Some Dir)"
proof (cases "target_of extract_path m")
  case None
  with assms show ?thesis by (simp add: process_member_cases)
next
  case (Some t)
  show ?thesis
  proof (cases "endswith (name m) ''validated.tsv''")
    case True
    with Some have pm: "process_member e disk extract_path m
        = extract_member e disk (m\<lparr>name := ''validated.tsv''\<rparr>) (join extract_path ''validated.tsv'')"
      by (simp add: process_member_cases)
    from Some True have t: "t = rstrip_sep (join extract_path ''validated.tsv'')"
      by (simp add: target_of_def split: if_splits)
    from extract_member_frame[of e disk _ _ k] assms pm Some t show ?thesis by fastforce
  next
    case False
    with Some have pm: "process_member e disk extract_path m
        = extract_member e disk (m\<lparr>name := join ''clips'' (basename (name m))\<rparr>)
                  (join extract_path (join ''clips'' (basename (name m))))"
      by (simp add: process_member_cases)
    from Some False have t: "t = rstrip_sep (join extract_path (join ''clips'' (basename (name m))))"
      by (simp add: target_of_def split: if_splits)
    from extract_member_frame[of e disk _ _ k] assms pm Some t show ?thesis by fastforce
  qed
qed

lemma process_member_write:
  assumes "snd (process_member e disk extract_path m) = None" "target_of extract_path m = Some k"
  shows "fst (process_member e disk extract_path m) k = Some (Reg (mode m) (data m)) \<and> k \<noteq> []
     \<and> basename k \<noteq> [] \<and> basename k \<noteq> ''.'' \<and> basename k \<noteq> ''..''"
proof (cases "endswith (name m) ''validated.tsv''")
  case True
  with assms(2) have pm: "process_member e disk extract_path m
      = extract_member e disk (m\<lparr>name := ''validated.tsv''\<rparr>) (join extract_path ''validated.tsv'')"
    by (simp add: process_member_cases)
  from assms(2) True have t: "k = rstrip_sep (join extract_path ''validated.tsv'')" and f: "isfile m"
    by (simp_all add: target_of_def split: if_splits)
  from extract_member_write[of e disk "m\<lparr>name := ''validated.tsv''\<rparr>" "join extract_path ''validated.tsv''"]
    assms(1) pm t f show ?thesis by simp
next
  case False
  with assms(2) have pm: "process_member e disk extract_path m
      = extract_member e disk (m\<lparr>name := join ''clips'' (basename (name m))\<rparr>)
                (join extract_path (join ''clips'' (basename (name m))))"
    by (simp add: process_member_cases)
  from assms(2) False have t: "k = rstrip_sep (join extract_path (join ''clips'' (basename (name m))))"
    and f: "isfile m"
    by (simp_all add: target_of_def split: if_splits)
  from extract_member_write[of e disk "m\<lparr>name := join ''clips'' (basename (name m))\<rparr>"
      "join extract_path (join ''clips'' (basename (name m)))"]
    assms(1) pm t f show ?thesis by simp
qed

lemma process_member_keep:
  assumes "disk k = Some n" "target_of extract_path m \<noteq> Some k"
  shows "fst (process_member e disk extract_path m) k = Some n"
proof (cases "fst (process_member e disk extract_path m) k = disk k")
  case True
  with assms show ?thesis by simp
next
  case False
  from process_member_frame[OF False] assms show ?thesis by auto
qed

lemma process_member_file:
  assumes "disk k \<noteq> None" "disk k \<noteq> Some Dir"
  shows "fst (process_member e disk extract_path m) k \<noteq> None
       \<and> fst (process_member e disk extract_path m) k \<noteq> Some Dir"
proof (cases "fst (process_member e disk extract_path m) k = disk k")
  case True
  with assms show ?thesis by simp
next
  case False
  from process_member_frame[OF False] assms show ?thesis by auto
qed

lemma clips_segment_is_extracted:
  assumes "isfile m" "\<not> endswith (name m) ''validated.tsv''"
    and "''clips'' \<in> set (butlast (split_on sep (name m)))"
  shows "process_member e disk extract_path m
       = tar_extract e disk (m\<lparr>name := join ''clips'' (basename (name m))\<rparr>) extract_path fully_trusted"
proof -
  from segment_is_substring[OF assms(3)] have "str_in ''clips/'' (name m)" by (simp add: sep_def)
  with assms(1,2) show ?thesis by (simp add: process_member_def)
qed

lemma skipped_member_leaves_disk_unchanged:
  assumes "\<not> isfile m \<or> (\<not> endswith (name m) ''validated.tsv'' \<and> \<not> str_in ''clips/'' (name m))"
  shows "process_member e disk extract_path m = (disk, None)"
  using assms by (auto simp: process_member_def)

subsection \<open>The loop\<close>

text \<open>
  The loop is unfolded through \<open>extract_loop_Cons\<close>, which speaks of the outcome of the
  first member instead of taking it apart.
\<close>

lemma extract_loop_Cons:
  "extract_loop e disk extract_path (m # ms) =
     (if snd (process_member e disk extract_path m) = None
      then extract_loop e (fst (process_member e disk extract_path m)) extract_path ms
      else process_member e disk extract_path m)"
  by (cases "process_member e disk extract_path m") (auto split: option.splits)

declare extract_loop.simps(2) [simp del]


lemma extract_loop_frame_reg:
  assumes "fst (extract_loop e disk extract_path ms) k = Some (Reg md c)"
    and "disk k \<noteq> Some (Reg md c)"
  shows "(\<exists>m \<in> set ms. target_of extract_path m = Some k \<and> md = mode m \<and> c = data m)
     \<and> basename k \<noteq> [] \<and> basename k \<noteq> ''.'' \<and> basename k \<noteq> ''..''"
  using assms
proof (induction ms arbitrary: disk)
  case Nil
  then show ?case by simp
next
  case (Cons m ms)
  let ?d1 = "fst (process_member e disk extract_path m)"
  show ?case
  proof (cases "?d1 k = Some (Reg md c)")
    case True
    with Cons.prems(2) have "?d1 k \<noteq> disk k" by simp
    from process_member_frame[OF this] True show ?thesis by auto
  next
    case False
    with Cons.prems(1) have s: "snd (process_member e disk extract_path m) = None"
      by (auto simp: extract_loop_Cons split: if_splits)
    with Cons.prems(1) have "fst (extract_loop e ?d1 extract_path ms) k = Some (Reg md c)"
      by (simp add: extract_loop_Cons)
    from Cons.IH[of ?d1, OF this False] show ?thesis by auto
  qed
qed

lemma extract_loop_keep:
  assumes "disk k = Some n" "\<forall>m \<in> set ms. target_of extract_path m \<noteq> Some k"
  shows "fst (extract_loop e disk extract_path ms) k = Some n"
  using assms
proof (induction ms arbitrary: disk)
  case Nil
  then show ?case by simp
next
  case (Cons m ms)
  from Cons.prems have k: "fst (process_member e disk extract_path m) k = Some n"
    by (simp add: process_member_keep)
  show ?case
  proof (cases "snd (process_member e disk extract_path m) = None")
    case True
    with Cons.IH[of "fst (process_member e disk extract_path m)", OF k] Cons.prems(2) show ?thesis
      by (simp add: extract_loop_Cons)
  next
    case False
    with k show ?thesis by (auto simp: extract_loop_Cons)
  qed
qed

lemma extract_loop_last:
  assumes "snd (extract_loop e disk extract_path ms) = None"
    and "filter (\<lambda>m. target_of extract_path m = Some k) ms \<noteq> []"
  shows "fst (extract_loop e disk extract_path ms) k
           = Some (Reg (mode (last (filter (\<lambda>m. target_of extract_path m = Some k) ms)))
                       (data (last (filter (\<lambda>m. target_of extract_path m = Some k) ms))))"
  using assms
proof (induction ms arbitrary: disk)
  case Nil
  then show ?case by simp
next
  case (Cons m ms)
  let ?d1 = "fst (process_member e disk extract_path m)"
  let ?W = "\<lambda>m. target_of extract_path m = Some k"
  from Cons.prems(1) have s: "snd (process_member e disk extract_path m) = None"
    by (auto simp: extract_loop_Cons split: if_splits)
  with Cons.prems(1) have rest: "snd (extract_loop e ?d1 extract_path ms) = None"
    by (simp add: extract_loop_Cons)
  show ?case
  proof (cases "filter ?W ms = []")
    case False
    with Cons.IH[of ?d1, OF rest False] s show ?thesis by (simp add: extract_loop_Cons)
  next
    case True
    with Cons.prems(2) have w: "?W m" by (auto split: if_splits)
    from process_member_write[OF s w] have "?d1 k = Some (Reg (mode m) (data m))" by simp
    moreover from True have "\<forall>m \<in> set ms. target_of extract_path m \<noteq> Some k"
      by (simp add: filter_empty_conv)
    ultimately have "fst (extract_loop e ?d1 extract_path ms) k = Some (Reg (mode m) (data m))"
      using extract_loop_keep[of ?d1 k "Reg (mode m) (data m)" ms extract_path e] by simp
    with s True w show ?thesis by (simp add: extract_loop_Cons)
  qed
qed

lemma extract_loop_file:
  assumes "disk k \<noteq> None" "disk k \<noteq> Some Dir"
  shows "fst (extract_loop e disk extract_path ms) k \<noteq> None
       \<and> fst (extract_loop e disk extract_path ms) k \<noteq> Some Dir"
  using assms
proof (induction ms arbitrary: disk)
  case Nil
  then show ?case by simp
next
  case (Cons m ms)
  let ?d1 = "fst (process_member e disk extract_path m)"
  from process_member_file[of disk k e extract_path m] Cons.prems
  have k: "?d1 k \<noteq> None" "?d1 k \<noteq> Some Dir" by simp_all
  show ?case
  proof (cases "snd (process_member e disk extract_path m) = None")
    case True
    with Cons.IH[of ?d1, OF k] show ?thesis by (simp add: extract_loop_Cons)
  next
    case False
    with k show ?thesis by (auto simp: extract_loop_Cons)
  qed
qed

subsection \<open>The whole call\<close>

lemma os_remove_file:
  assumes "disk p \<noteq> None" "disk p \<noteq> Some Dir"
  shows "os_remove disk p = (disk(p := None), None)"
  using assms by (auto simp: os_remove_def split: option.splits node.splits)

lemma tarfile_open_Inr: "tarfile_open disk file_path = Inr ms \<Longrightarrow> disk file_path = Some (Archive ms)"
  by (auto simp: tarfile_open_def split: option.splits node.splits)

lemma extract_after_open:
  assumes "tarfile_open disk file_path = Inr ms"
  shows "extract_validated_and_clips_from_tar e disk file_path extract_path
           = (if snd (extract_loop e disk extract_path ms) = None
              then ((fst (extract_loop e disk extract_path ms))(file_path := None), None)
              else extract_loop e disk extract_path ms)"
    and "fst (extract_loop e disk extract_path ms) file_path \<noteq> None"
proof -
  let ?L = "extract_loop e disk extract_path ms"
  from tarfile_open_Inr[OF assms]
  have "disk file_path \<noteq> None" "disk file_path \<noteq> Some Dir" by simp_all
  with extract_loop_file[of disk file_path e extract_path ms]
  have f: "fst ?L file_path \<noteq> None" "fst ?L file_path \<noteq> Some Dir" by simp_all
  then show "fst ?L file_path \<noteq> None" by simp
  show "extract_validated_and_clips_from_tar e disk file_path extract_path
           = (if snd ?L = None then ((fst ?L)(file_path := None), None) else ?L)"
  proof (cases "snd ?L")
    case None
    then have "extract_validated_and_clips_from_tar e disk file_path extract_path
        = os_remove (fst ?L) file_path"
      using assms by (cases ?L) (simp add: extract_validated_and_clips_from_tar_def)
    with os_remove_file[of "fst ?L" file_path] f None show ?thesis by simp
  next
    case (Some err)
    then have "extract_validated_and_clips_from_tar e disk file_path extract_path = ?L"
      using assms by (cases ?L) (simp add: extract_validated_and_clips_from_tar_def)
    with Some show ?thesis by simp
  qed
qed

lemma extract_success:
  assumes "tarfile_open disk file_path = Inr ms"
    and "snd (extract_validated_and_clips_from_tar e disk file_path extract_path) = None"
  shows "snd (extract_loop e disk extract_path ms) = None"
    and "fst (extract_validated_and_clips_from_tar e disk file_path extract_path)
           = (fst (extract_loop e disk extract_path ms))(file_path := None)"
  using assms(2) unfolding extract_after_open(1)[OF assms(1)]
  by (simp_all split: if_splits)

lemma extract_result_reg:
  assumes "fst (extract_validated_and_clips_from_tar e disk file_path extract_path) k = Some (Reg md c)"
    and "disk k \<noteq> Some (Reg md c)"
  shows "\<exists>ms. tarfile_open disk file_path = Inr ms
           \<and> fst (extract_loop e disk extract_path ms) k = Some (Reg md c)"
proof (cases "tarfile_open disk file_path")
  case (Inl err)
  with assms show ?thesis by (simp add: extract_validated_and_clips_from_tar_def)
next
  case (Inr ms)
  from assms(1) have "fst (extract_loop e disk extract_path ms) k = Some (Reg md c)"
    unfolding extract_after_open(1)[OF Inr] by (simp split: if_splits)
  with Inr show ?thesis by simp
qed

subsection \<open>The loader\<close>

lemma field_at_not_None: "field_at flds i \<noteq> PyNone"
  by (simp add: field_at_def to_cell_def)

lemma parse_rows_Inr:
  "parse_rows d w ip ig ls = Inr rs \<Longrightarrow>
     rs = map (\<lambda>l. \<lparr>path = field_at (split_on d l) ip, gender = field_at (split_on d l) ig\<rparr>) ls"
  by (induction ls arbitrary: rs) (auto simp: Let_def split: if_splits sum.splits)

lemma parse_rows_Inl: "parse_rows d w ip ig ls = Inl e \<Longrightarrow> e = ParserError"
  by (induction ls) (auto simp: Let_def split: if_splits sum.splits)

lemma index_of_None: "(index_of x xs = None) = (x \<notin> set xs)"
  by (induction xs) auto

lemma read_csv_gender_not_None:
  assumes "read_csv disk file_path d cp cg = Inr df" "r \<in> set df"
  shows "gender r \<noteq> PyNone"
proof -
  from assms(1) obtain w ip ig ls where "parse_rows d w ip ig ls = Inr df"
    by (auto simp: read_csv_def split: option.splits node.splits list.splits)
  from parse_rows_Inr[OF this] assms(2) show ?thesis
    by (auto simp: field_at_not_None)
qed

lemma load_validated_data_Inr:
  assumes "read_csv disk file_path tab ''path'' ''gender'' = Inr df"
  shows "load_validated_data disk file_path
           = Inr (map (\<lambda>r. r\<lparr>gender := simplify_gender (gender r)\<rparr>) (filter (\<lambda>r. notna (gender r)) df))"
  using assms by (simp add: load_validated_data_def)

lemma scenario_read: "read_csv tsv_disk ''out/validated.tsv'' tab ''path'' ''gender'' = Inr scenario_rows"
  by code_simp

section \<open>Where extraction writes\<close>

text \<open>
  Claim C1, as amended. The extractor hands every member to the library under the
  \<open>fully_trusted\<close> policy, which changes nothing; what keeps the output inside the
  destination is the rename before each \<open>tar.extract\<close>. Whatever the raw member names
  contain, every regular file that a call creates or changes, in bytes or in permission
  bits, is \<open>extract_path/validated.tsv\<close>, \<open>extract_path/clips\<close> or \<open>extract_path/clips/b\<close>
  for a single non-empty path component \<open>b\<close> other than \<open>.\<close> and \<open>..\<close>.
\<close>

theorem extracted_files_stay_in_destination:
  assumes "fst (extract_validated_and_clips_from_tar e disk file_path extract_path) k = Some (Reg md c)"
    and "disk k \<noteq> Some (Reg md c)"
  shows "k = join extract_path ''validated.tsv'' \<or> k = join extract_path ''clips''
       \<or> (\<exists>b. b \<noteq> [] \<and> sep \<notin> set b \<and> b \<noteq> ''.'' \<and> b \<noteq> ''..''
              \<and> k = join extract_path (''clips/'' @ b))"
proof -
  from extract_result_reg[OF assms] obtain ms where
    l: "fst (extract_loop e disk extract_path ms) k = Some (Reg md c)" by blast
  from extract_loop_frame_reg[OF l assms(2)] obtain m where
    t: "target_of extract_path m = Some k"
    and b: "basename k \<noteq> ''.''" "basename k \<noteq> ''..''" by blast
  let ?b = "basename (name m)"
  from t consider
      (v) "k = join extract_path [] @ ''validated.tsv''"
    | (d) "k = join extract_path [] @ ''clips''"
    | (f) "?b \<noteq> []" "k = join extract_path [] @ ''clips/'' @ ?b"
    by (auto simp: target_of_eq split: if_splits)
  then show ?thesis
  proof cases
    case v
    then show ?thesis by (simp add: join_validated)
  next
    case d
    then show ?thesis by (simp add: join_clips_dir)
  next
    case f
    have "basename k = ?b"
      using basename_append[OF basename_no_sep, of "join extract_path [] @ ''clips''" "name m"] f(2)
      by (simp add: sep_def)
    with b f join_clips_file[of extract_path ?b]
    have "?b \<noteq> [] \<and> sep \<notin> set ?b \<and> ?b \<noteq> ''.'' \<and> ?b \<noteq> ''..''
              \<and> k = join extract_path (''clips/'' @ ?b)"
      by (simp add: basename_no_sep)
    then show ?thesis by blast
  qed
qed

theorem extracted_files_stay_in_destination_witness:
  "fst (extract_validated_and_clips_from_tar user_env scenario_disk ''cv.tar'' ''out'') ''out/clips/1.mp3''
     = Some (Reg 420 ''Y'')
   \<and> scenario_disk ''out/clips/1.mp3'' \<noteq> Some (Reg 420 ''Y'')
   \<and> (''out/clips/1.mp3'' = join ''out'' ''validated.tsv''
        \<or> ''out/clips/1.mp3'' = join ''out'' ''clips''
        \<or> (\<exists>b. b \<noteq> [] \<and> sep \<notin> set b \<and> b \<noteq> ''.'' \<and> b \<noteq> ''..''
              \<and> ''out/clips/1.mp3'' = join ''out'' (''clips/'' @ b)))"
proof -
  have h1: "fst (extract_validated_and_clips_from_tar user_env scenario_disk ''cv.tar'' ''out'')
      ''out/clips/1.mp3'' = Some (Reg 420 ''Y'')"
    by code_simp
  have h2: "scenario_disk ''out/clips/1.mp3'' \<noteq> Some (Reg 420 ''Y'')"
    by (simp add: scenario_disk_def)
  from extracted_files_stay_in_destination[OF h1 h2] h1 h2 show ?thesis by blast
qed

text \<open>
  Claim C1 as stated fails on the policy: the extractor calls the library with
  \<open>fully_trusted\<close>, and that policy does not clamp names. Given a member with an absolute
  name it writes outside the destination, where the \<open>data\<close> policy strips the leading
  separator and stays inside.
\<close>

theorem extraction_policy_is_fully_trusted:
  "process_member root_env [''out'' \<mapsto> Dir] ''out'' \<lparr>name = ''en/validated.tsv'', mtype = REGTYPE, mode = 420, data = ''V''\<rparr>
     = tar_extract root_env [''out'' \<mapsto> Dir] \<lparr>name = ''validated.tsv'', mtype = REGTYPE, mode = 420, data = ''V''\<rparr>
         ''out'' fully_trusted
   \<and> apply_filter root_env fully_trusted absolute_member ''out'' = Inr absolute_member
   \<and> apply_filter root_env data_only absolute_member ''out''
       = Inr \<lparr>name = ''etc/cron.d/job'', mtype = REGTYPE, mode = 420, data = ''J''\<rparr>
   \<and> fst (tar_extract root_env [''out'' \<mapsto> Dir] absolute_member ''out'' fully_trusted) ''/etc/cron.d/job''
       = Some (Reg 420 ''J'')
   \<and> fst (tar_extract root_env [''out'' \<mapsto> Dir] absolute_member ''out'' data_only) ''/etc/cron.d/job''
       = None
   \<and> fst (tar_extract root_env [''out'' \<mapsto> Dir] absolute_member ''out'' data_only) ''out/etc/cron.d/job''
       = Some (Reg 420 ''J'')"
proof -
  have 1: "process_member root_env [''out'' \<mapsto> Dir] ''out''
        \<lparr>name = ''en/validated.tsv'', mtype = REGTYPE, mode = 420, data = ''V''\<rparr>
     = tar_extract root_env [''out'' \<mapsto> Dir] \<lparr>name = ''validated.tsv'', mtype = REGTYPE, mode = 420, data = ''V''\<rparr>
         ''out'' fully_trusted"
    by (simp add: process_member_def isfile_def endswith_def)
  have 2: "apply_filter root_env fully_trusted absolute_member ''out'' = Inr absolute_member"
    by simp
  have 3: "apply_filter root_env data_only absolute_member ''out''
       = Inr \<lparr>name = ''etc/cron.d/job'', mtype = REGTYPE, mode = 420, data = ''J''\<rparr>"
    by code_simp
  have 4: "fst (tar_extract root_env [''out'' \<mapsto> Dir] absolute_member ''out'' fully_trusted)
      ''/etc/cron.d/job'' = Some (Reg 420 ''J'')"
    by code_simp
  have 5: "fst (tar_extract root_env [''out'' \<mapsto> Dir] absolute_member ''out'' data_only)
      ''/etc/cron.d/job'' = None"
    by code_simp
  have 6: "fst (tar_extract root_env [''out'' \<mapsto> Dir] absolute_member ''out'' data_only)
      ''out/etc/cron.d/job'' = Some (Reg 420 ''J'')"
    by code_simp
  from 1 2 3 4 5 6 show ?thesis by blast
qed

text \<open>
  Claim C2 at the input \<open>audioclips/a.mp3\<close>. The name has no path segment \<open>clips\<close>: its
  segments are \<open>audioclips\<close> and \<open>a.mp3\<close>. The test of the source is the substring test
  \<open>"clips/" in member.name\<close>, which the name passes, so the member is extracted to
  \<open>out/clips/a.mp3\<close>.
\<close>

theorem substring_test_extracts_member_outside_clips:
  "isfile audioclips_member
   \<and> split_on sep (name audioclips_member) = [''audioclips'', ''a.mp3'']
   \<and> ''clips'' \<notin> set (split_on sep (name audioclips_member))
   \<and> str_in ''clips/'' (name audioclips_member)
   \<and> snd (extract_validated_and_clips_from_tar user_env audioclips_disk ''cv.tar'' ''out'') = None
   \<and> fst (extract_validated_and_clips_from_tar user_env audioclips_disk ''cv.tar'' ''out'') ''out/clips/a.mp3''
       = Some (Reg 420 ''A'')"
  by code_simp


section \<open>What the extracted files hold\<close>

text \<open>
  Claim C3, as amended. When the archive has at least one regular-file member whose name
  ends with \<open>validated.tsv\<close> and the extraction completes without an exception, all such
  members are extracted under the one name \<open>validated.tsv\<close>, whatever their directory, and
  the single file \<open>extract_path/validated.tsv\<close> holds the bytes of the last of them in
  archive order (the container itself not being at that path).
\<close>

theorem validated_tsv_holds_last_matching_member:
  assumes "tarfile_open disk file_path = Inr ms"
    and "snd (extract_validated_and_clips_from_tar e disk file_path extract_path) = None"
    and "file_path \<noteq> join extract_path ''validated.tsv''"
    and "filter (\<lambda>m. isfile m \<and> endswith (name m) ''validated.tsv'') ms \<noteq> []"
  shows "(\<forall>m \<in> set ms. \<forall>d. isfile m \<and> endswith (name m) ''validated.tsv'' \<longrightarrow>
            process_member e d extract_path m
              = tar_extract e d (m\<lparr>name := ''validated.tsv''\<rparr>) extract_path fully_trusted)
       \<and> fst (extract_validated_and_clips_from_tar e disk file_path extract_path)
           (join extract_path ''validated.tsv'')
         = Some (Reg (mode (last (filter (\<lambda>m. isfile m \<and> endswith (name m) ''validated.tsv'') ms)))
                     (data (last (filter (\<lambda>m. isfile m \<and> endswith (name m) ''validated.tsv'') ms))))"
proof
  show "\<forall>m \<in> set ms. \<forall>d. isfile m \<and> endswith (name m) ''validated.tsv'' \<longrightarrow>
            process_member e d extract_path m
              = tar_extract e d (m\<lparr>name := ''validated.tsv''\<rparr>) extract_path fully_trusted"
    by (simp add: process_member_def)
next
  let ?k = "join extract_path ''validated.tsv''"
  have w: "(\<lambda>m. target_of extract_path m = Some ?k)
         = (\<lambda>m. isfile m \<and> endswith (name m) ''validated.tsv'')"
    by (simp add: target_validated)
  from extract_success[OF assms(1,2)] have l: "snd (extract_loop e disk extract_path ms) = None"
    and r: "fst (extract_validated_and_clips_from_tar e disk file_path extract_path)
           = (fst (extract_loop e disk extract_path ms))(file_path := None)" by simp_all
  from extract_loop_last[OF l, of ?k] assms(4)
  have "fst (extract_loop e disk extract_path ms) ?k
      = Some (Reg (mode (last (filter (\<lambda>m. isfile m \<and> endswith (name m) ''validated.tsv'') ms)))
                     (data (last (filter (\<lambda>m. isfile m \<and> endswith (name m) ''validated.tsv'') ms))))"
    unfolding w by simp
  with r assms(3) show "fst (extract_validated_and_clips_from_tar e disk file_path extract_path) ?k
      = Some (Reg (mode (last (filter (\<lambda>m. isfile m \<and> endswith (name m) ''validated.tsv'') ms)))
                     (data (last (filter (\<lambda>m. isfile m \<and> endswith (name m) ''validated.tsv'') ms))))"
    by simp
qed

theorem validated_tsv_holds_last_matching_member_witness:
  "tarfile_open two_metadata_disk ''cv.tar''
     = Inr [\<lparr>name = ''en/validated.tsv'', mtype = REGTYPE, mode = 420, data = ''E''\<rparr>,
            \<lparr>name = ''fr/validated.tsv'', mtype = REGTYPE, mode = 420, data = ''F''\<rparr>]
   \<and> snd (extract_validated_and_clips_from_tar user_env two_metadata_disk ''cv.tar'' ''out'') = None
   \<and> ''cv.tar'' \<noteq> join ''out'' ''validated.tsv''
   \<and> process_member user_env [''out'' \<mapsto> Dir] ''out''
         \<lparr>name = ''en/validated.tsv'', mtype = REGTYPE, mode = 420, data = ''E''\<rparr>
       = tar_extract user_env [''out'' \<mapsto> Dir]
           \<lparr>name = ''validated.tsv'', mtype = REGTYPE, mode = 420, data = ''E''\<rparr> ''out'' fully_trusted
   \<and> fst (extract_validated_and_clips_from_tar user_env two_metadata_disk ''cv.tar'' ''out'')
         (join ''out'' ''validated.tsv'') = Some (Reg 420 ''F'')"
proof -
  let ?ms = "[\<lparr>name = ''en/validated.tsv'', mtype = REGTYPE, mode = 420, data = ''E''\<rparr>,
            \<lparr>name = ''fr/validated.tsv'', mtype = REGTYPE, mode = 420, data = ''F''\<rparr>]"
  have h1: "tarfile_open two_metadata_disk ''cv.tar'' = Inr ?ms"
    by (simp add: tarfile_open_def two_metadata_disk_def)
  have h2: "snd (extract_validated_and_clips_from_tar user_env two_metadata_disk ''cv.tar'' ''out'') = None"
    by code_simp
  have h3: "''cv.tar'' \<noteq> join ''out'' ''validated.tsv''"
    by code_simp
  have f: "filter (\<lambda>m. isfile m \<and> endswith (name m) ''validated.tsv'') ?ms = ?ms"
    by (simp add: isfile_def endswith_def)
  then have h4: "filter (\<lambda>m. isfile m \<and> endswith (name m) ''validated.tsv'') ?ms \<noteq> []"
    by simp
  note T = validated_tsv_holds_last_matching_member[OF h1 h2 h3 h4]
  have e: "isfile \<lparr>name = ''en/validated.tsv'', mtype = REGTYPE, mode = 420, data = ''E''\<rparr>
      \<and> endswith (name \<lparr>name = ''en/validated.tsv'', mtype = REGTYPE, mode = 420, data = ''E''\<rparr>) ''validated.tsv''"
    by (simp add: isfile_def endswith_def)
  from T[THEN conjunct1, rule_format,
      of "\<lparr>name = ''en/validated.tsv'', mtype = REGTYPE, mode = 420, data = ''E''\<rparr>" "[''out'' \<mapsto> Dir]"] e
  have a: "process_member user_env [''out'' \<mapsto> Dir] ''out''
         \<lparr>name = ''en/validated.tsv'', mtype = REGTYPE, mode = 420, data = ''E''\<rparr>
       = tar_extract user_env [''out'' \<mapsto> Dir]
           \<lparr>name = ''validated.tsv'', mtype = REGTYPE, mode = 420, data = ''E''\<rparr> ''out'' fully_trusted"
    by simp
  from T[THEN conjunct2] f
  have b: "fst (extract_validated_and_clips_from_tar user_env two_metadata_disk ''cv.tar'' ''out'')
         (join ''out'' ''validated.tsv'') = Some (Reg 420 ''F'')"
    by simp
  from h1 h2 h3 a b show ?thesis by blast
qed

text \<open>
  Claim C3 as stated fails for a member that is not the last one: with the metadata files
  of two languages in the archive, \<open>out/validated.tsv\<close> holds the second one's bytes and
  not the first one's.
\<close>

theorem earlier_metadata_member_is_overwritten:
  "two_metadata_disk ''cv.tar''
     = Some (Archive [\<lparr>name = ''en/validated.tsv'', mtype = REGTYPE, mode = 420, data = ''E''\<rparr>,
                      \<lparr>name = ''fr/validated.tsv'', mtype = REGTYPE, mode = 420, data = ''F''\<rparr>])
   \<and> snd (extract_validated_and_clips_from_tar user_env two_metadata_disk ''cv.tar'' ''out'') = None
   \<and> fst (extract_validated_and_clips_from_tar user_env two_metadata_disk ''cv.tar'' ''out'')
         ''out/validated.tsv'' = Some (Reg 420 ''F'')
   \<and> fst (extract_validated_and_clips_from_tar user_env two_metadata_disk ''cv.tar'' ''out'')
         ''out/validated.tsv'' \<noteq> Some (Reg 420 ''E'')"
proof -
  have 1: "two_metadata_disk ''cv.tar''
     = Some (Archive [\<lparr>name = ''en/validated.tsv'', mtype = REGTYPE, mode = 420, data = ''E''\<rparr>,
                      \<lparr>name = ''fr/validated.tsv'', mtype = REGTYPE, mode = 420, data = ''F''\<rparr>])"
    by (simp add: two_metadata_disk_def)
  have 2: "snd (extract_validated_and_clips_from_tar user_env two_metadata_disk ''cv.tar'' ''out'') = None"
    by code_simp
  have 3: "fst (extract_validated_and_clips_from_tar user_env two_metadata_disk ''cv.tar'' ''out'')
         ''out/validated.tsv'' = Some (Reg 420 ''F'')"
    by code_simp
  from 1 2 3 show ?thesis by simp
qed





section \<open>The container after extraction\<close>



text \<open>
  Why the last part names the paths that the extraction writes: a container lying at
  \<open>out/validated.tsv\<close> is overwritten by the metadata member it holds, and when a later
  member raises, the path holds that member's bytes and no longer the container.
\<close>

lemma container_at_metadata_path_is_overwritten:
  "tarfile_open container_at_target_disk ''out/validated.tsv'' = Inr [metadata_member, dotdot_clip]
   \<and> snd (extract_validated_and_clips_from_tar user_env container_at_target_disk
            ''out/validated.tsv'' ''out'') = Some IsADirectoryError
   \<and> fst (extract_validated_and_clips_from_tar user_env container_at_target_disk
            ''out/validated.tsv'' ''out'') ''out/validated.tsv'' = Some (Reg 420 ''V'')"
  by code_simp



section \<open>Members outside the two rules, and members inside both\<close>

text \<open>
  Claim C9 at a regular-file member named \<open>en/clips/\<close>. Its basename is empty, so it is
  renamed to \<open>clips/\<close>; the library strips the trailing separator of the target, and in a
  destination that has no \<open>clips\<close> directory yet the member's bytes become the regular file
  \<open>out/clips\<close>. That path is neither \<open>out/validated.tsv\<close> nor a path under \<open>out/clips/\<close>.
\<close>

theorem empty_basename_writes_file_named_clips:
  "isfile trailing_sep_member
   \<and> basename (name trailing_sep_member) = []
   \<and> join ''clips'' (basename (name trailing_sep_member)) = ''clips/''
   \<and> snd (extract_validated_and_clips_from_tar user_env trailing_sep_disk ''cv.tar'' ''out'') = None
   \<and> fst (extract_validated_and_clips_from_tar user_env trailing_sep_disk ''cv.tar'' ''out'') ''out/clips''
       = Some (Reg 420 ''B'')
   \<and> ''out/clips'' \<noteq> join ''out'' ''validated.tsv''
   \<and> \<not> startswith ''out/clips'' (join ''out'' ''clips/'')"
  by code_simp




section \<open>The metadata loader\<close>

text \<open>
  Claim C6. For every row that survives the missing-label filter of \<open>load_validated_data\<close>,
  the derived category is \<open>male\<close> when the raw gender is \<open>male\<close> or \<open>male_masculine\<close>,
  \<open>female\<close> when it is \<open>female\<close> or \<open>female_feminine\<close>, and undefined (Python's
  \<open>None\<close>, neither of the two categories) for every other non-missing value. The rows of
  the output correspond one to one, in order, to the rows of the parsed frame whose gender
  is not missing.
\<close>

theorem derived_category_of_surviving_rows:
  assumes "read_csv disk file_path tab ''path'' ''gender'' = Inr df"
  shows "\<exists>out. load_validated_data disk file_path = Inr out
           \<and> length out = length (filter (\<lambda>r. notna (gender r)) df)
           \<and> (\<forall>i < length out.
                 gender (out ! i) =
                   (let raw = gender (filter (\<lambda>r. notna (gender r)) df ! i)
                    in if raw = Str ''male'' \<or> raw = Str ''male_masculine'' then Str ''male''
                       else if raw = Str ''female'' \<or> raw = Str ''female_feminine'' then Str ''female''
                       else PyNone))"
  unfolding load_validated_data_Inr[OF assms]
  by (auto simp: simplify_gender_def Let_def)

theorem derived_category_of_surviving_rows_witness:
  "read_csv tsv_disk ''out/validated.tsv'' tab ''path'' ''gender'' = Inr scenario_rows
   \<and> (\<exists>out. load_validated_data tsv_disk ''out/validated.tsv'' = Inr out
         \<and> length out = 3
         \<and> gender (out ! 0) = Str ''male'' \<and> gender (out ! 1) = Str ''female''
         \<and> gender (out ! 2) = PyNone)"
proof -
  have f: "filter (\<lambda>r. notna (gender r)) scenario_rows
     = [\<lparr>path = Str ''a.mp3'', gender = Str ''male''\<rparr>,
        \<lparr>path = Str ''b.mp3'', gender = Str ''female_feminine''\<rparr>,
        \<lparr>path = Str ''d.mp3'', gender = Str ''other''\<rparr>]"
    by (simp add: scenario_rows_def notna_def)
  from derived_category_of_surviving_rows[OF scenario_read]
  obtain out where o: "load_validated_data tsv_disk ''out/validated.tsv'' = Inr out"
    "length out = length (filter (\<lambda>r. notna (gender r)) scenario_rows)"
    "\<forall>i < length out.
                 gender (out ! i) =
                   (let raw = gender (filter (\<lambda>r. notna (gender r)) scenario_rows ! i)
                    in if raw = Str ''male'' \<or> raw = Str ''male_masculine'' then Str ''male''
                       else if raw = Str ''female'' \<or> raw = Str ''female_feminine'' then Str ''female''
                       else PyNone)"
    by blast
  from o(2) f have len: "length out = 3" by simp
  from o(3) len have "gender (out ! 0) = Str ''male''" "gender (out ! 1) = Str ''female''"
    "gender (out ! 2) = PyNone"
    by (simp_all add: f)
  with o(1) len scenario_read show ?thesis by blast
qed

text \<open>
  Claim C7. The output of \<open>load_validated_data\<close> is exactly the rows of the parsed file
  whose gender field is not missing, in file order and each with its \<open>path\<close> unchanged:
  a row with a missing gender never appears, and a row whose category is undefined stays.
\<close>

theorem output_is_rows_with_label_in_order:
  assumes "read_csv disk file_path tab ''path'' ''gender'' = Inr df"
  shows "\<exists>out. load_validated_data disk file_path = Inr out
           \<and> map path out = map path (filter (\<lambda>r. gender r \<noteq> NaN) df)"
proof -
  have "filter (\<lambda>r. notna (gender r)) df = filter (\<lambda>r. gender r \<noteq> NaN) df"
    using read_csv_gender_not_None[OF assms] by (auto simp: notna_def intro: filter_cong)
  then show ?thesis
    unfolding load_validated_data_Inr[OF assms] by (simp add: comp_def)
qed

theorem output_is_rows_with_label_in_order_witness:
  "read_csv tsv_disk ''out/validated.tsv'' tab ''path'' ''gender'' = Inr scenario_rows
   \<and> (\<exists>out. load_validated_data tsv_disk ''out/validated.tsv'' = Inr out
         \<and> map path out = [Str ''a.mp3'', Str ''b.mp3'', Str ''d.mp3''])"
  using output_is_rows_with_label_in_order[OF scenario_read] scenario_read
  by (simp add: scenario_rows_def)


text \<open>
  Claim C8. \<open>load_validated_data\<close> reads the file as tab-separated text and loads the
  \<open>path\<close> and \<open>gender\<close> columns only, and it fails with an error instead of returning
  rows whenever one of the two columns is missing from the header. For a regular file
  with a header line: the call raises \<open>ValueError\<close> exactly when \<open>path\<close> or \<open>gender\<close> is
  not among the tab-separated header fields; and when it returns rows, each row is made
  of the two fields found at the header positions of \<open>path\<close> and \<open>gender\<close> in the
  tab-separated line, whatever the other columns hold.
\<close>

theorem missing_column_raises_value_error:
  assumes "disk file_path = Some (Reg md s)"
    and "filter (\<lambda>l. l \<noteq> []) (split_on newline s) = header # ls"
  shows "(load_validated_data disk file_path = Inl ValueError)
           = (''path'' \<notin> set (split_on tab header) \<or> ''gender'' \<notin> set (split_on tab header))
       \<and> (\<forall>out. load_validated_data disk file_path = Inr out \<longrightarrow>
             (\<exists>ip ig. index_of ''path'' (split_on tab header) = Some ip
                \<and> index_of ''gender'' (split_on tab header) = Some ig
                \<and> out = map (\<lambda>l. \<lparr>path = field_at (split_on tab l) ip,
                                   gender = simplify_gender (field_at (split_on tab l) ig)\<rparr>)
                           (filter (\<lambda>l. notna (field_at (split_on tab l) ig)) ls)))"
proof (cases "''path'' \<in> set (split_on tab header) \<and> ''gender'' \<in> set (split_on tab header)")
  case False
  then have "index_of ''path'' (split_on tab header) = None \<or> index_of ''gender'' (split_on tab header) = None"
    by (auto simp: index_of_None)
  then have "read_csv disk file_path tab ''path'' ''gender'' = Inl ValueError"
    using assms by (auto simp: read_csv_def split: option.splits)
  then have "load_validated_data disk file_path = Inl ValueError"
    by (simp add: load_validated_data_def)
  with False show ?thesis by auto
next
  case True
  then obtain ip ig where i: "index_of ''path'' (split_on tab header) = Some ip"
    "index_of ''gender'' (split_on tab header) = Some ig"
    using index_of_None[of "''path''" "split_on tab header"]
      index_of_None[of "''gender''" "split_on tab header"] by auto
  let ?P = "parse_rows tab (length (split_on tab header)) ip ig ls"
  from assms i have rc: "read_csv disk file_path tab ''path'' ''gender'' = ?P"
    by (simp add: read_csv_def)
  show ?thesis
  proof (cases ?P)
    case (Inl e)
    with parse_rows_Inl[OF Inl] rc True show ?thesis
      by (simp add: load_validated_data_def)
  next
    case (Inr rs)
    from parse_rows_Inr[OF Inr] have rs: "rs = map (\<lambda>l. \<lparr>path = field_at (split_on tab l) ip,
        gender = field_at (split_on tab l) ig\<rparr>) ls" .
    from rc Inr have "load_validated_data disk file_path
        = Inr (map (\<lambda>r. r\<lparr>gender := simplify_gender (gender r)\<rparr>) (filter (\<lambda>r. notna (gender r)) rs))"
      by (simp add: load_validated_data_Inr)
    also have "map (\<lambda>r. r\<lparr>gender := simplify_gender (gender r)\<rparr>) (filter (\<lambda>r. notna (gender r)) rs)
        = map (\<lambda>l. \<lparr>path = field_at (split_on tab l) ip,
                                   gender = simplify_gender (field_at (split_on tab l) ig)\<rparr>)
                           (filter (\<lambda>l. notna (field_at (split_on tab l) ig)) ls)"
      unfolding rs by (simp add: filter_map comp_def)
    finally show ?thesis using True i by simp
  qed
qed

theorem missing_column_raises_value_error_witness:
  "no_gender_disk ''out/validated.tsv'' = Some (Reg 420 no_gender_tsv)
   \<and> filter (\<lambda>l. l \<noteq> []) (split_on newline no_gender_tsv)
       = (''path'' @ [tab] @ ''age'') # [''a.mp3'' @ [tab] @ ''thirties'']
   \<and> ''gender'' \<notin> set (split_on tab (''path'' @ [tab] @ ''age''))
   \<and> load_validated_data no_gender_disk ''out/validated.tsv'' = Inl ValueError
   \<and> tsv_disk ''out/validated.tsv'' = Some (Reg 420 scenario_tsv)
   \<and> load_validated_data tsv_disk ''out/validated.tsv'' = Inr scenario_out
   \<and> (\<exists>header ls ip ig.
         filter (\<lambda>l. l \<noteq> []) (split_on newline scenario_tsv) = header # ls
         \<and> index_of ''path'' (split_on tab header) = Some ip
         \<and> index_of ''gender'' (split_on tab header) = Some ig
         \<and> scenario_out = map (\<lambda>l. \<lparr>path = field_at (split_on tab l) ip,
                                   gender = simplify_gender (field_at (split_on tab l) ig)\<rparr>)
                           (filter (\<lambda>l. notna (field_at (split_on tab l) ig)) ls))"
proof -
  have h1: "no_gender_disk ''out/validated.tsv'' = Some (Reg 420 no_gender_tsv)"
    by (simp add: no_gender_disk_def)
  have h2: "filter (\<lambda>l. l \<noteq> []) (split_on newline no_gender_tsv)
       = (''path'' @ [tab] @ ''age'') # [''a.mp3'' @ [tab] @ ''thirties'']"
    by (simp add: no_gender_tsv_def tab_def newline_def)
  have h3: "''gender'' \<notin> set (split_on tab (''path'' @ [tab] @ ''age''))"
    by (simp add: tab_def)
  have g1: "tsv_disk ''out/validated.tsv'' = Some (Reg 420 scenario_tsv)"
    by (simp add: tsv_disk_def)
  obtain header ls where g2: "filter (\<lambda>l. l \<noteq> []) (split_on newline scenario_tsv) = header # ls"
    by (simp add: scenario_tsv_def tab_def newline_def)
  have g3: "load_validated_data tsv_disk ''out/validated.tsv'' = Inr scenario_out"
    by (simp add: load_validated_data_Inr[OF scenario_read] scenario_rows_def scenario_out_def
        notna_def simplify_gender_def)
  from missing_column_raises_value_error[where disk = no_gender_disk
      and file_path = "''out/validated.tsv''" and s = no_gender_tsv, OF h1 h2] h3
  have a: "load_validated_data no_gender_disk ''out/validated.tsv'' = Inl ValueError" by blast
  from missing_column_raises_value_error[where disk = tsv_disk
      and file_path = "''out/validated.tsv''" and s = scenario_tsv, OF g1 g2] g3
  have "\<exists>ip ig. index_of ''path'' (split_on tab header) = Some ip
         \<and> index_of ''gender'' (split_on tab header) = Some ig
         \<and> scenario_out = map (\<lambda>l. \<lparr>path = field_at (split_on tab l) ip,
                                   gender = simplify_gender (field_at (split_on tab l) ig)\<rparr>)
                           (filter (\<lambda>l. notna (field_at (split_on tab l) ig)) ls)"
    by blast
  with g2 have b: "\<exists>header ls ip ig.
         filter (\<lambda>l. l \<noteq> []) (split_on newline scenario_tsv) = header # ls
         \<and> index_of ''path'' (split_on tab header) = Some ip
         \<and> index_of ''gender'' (split_on tab header) = Some ig
         \<and> scenario_out = map (\<lambda>l. \<lparr>path = field_at (split_on tab l) ip,
                                   gender = simplify_gender (field_at (split_on tab l) ig)\<rparr>)
                           (filter (\<lambda>l. notna (field_at (split_on tab l) ig)) ls)"
    by blast
  from h1 h2 h3 a g1 g3 b show ?thesis by blast
qed


end
